theory Spec2Isabelle
  imports Main
begin

section \<open>Decimal text of process identifiers\<close>

text \<open>
  The lock file holds the owner's PID as text. The Go code writes it with
  \<^verbatim>\<open>strconv.Itoa\<close> and reads it back with
  \<^verbatim>\<open>strconv.Atoi(strings.TrimSpace(...))\<close>. A Go \<^verbatim>\<open>string\<close> is a
  sequence of bytes, here a \<^typ>\<open>char list\<close>; a Go \<^verbatim>\<open>int\<close> is a 64-bit signed
  integer, here an \<^typ>\<open>int\<close> together with the range predicate \<open>go_int\<close>.
\<close>

definition go_int :: "int \<Rightarrow> bool" where
  "go_int i = (- (2 ^ 63) \<le> i \<and> i < 2 ^ 63)"

definition is_digit :: "char \<Rightarrow> bool" where
  "is_digit c = (48 \<le> (of_char c :: nat) \<and> (of_char c :: nat) \<le> 57)"

definition digit_val :: "char \<Rightarrow> nat" where
  "digit_val c = of_char c - 48"

definition digit_char :: "nat \<Rightarrow> char" where
  "digit_char d = char_of (48 + d)"

text \<open>\<^verbatim>\<open>strconv.ParseUint(s, 10, 64)\<close>: a non-empty run of decimal digits (no
  underscores in base 10) whose value fits 64 unsigned bits; any other input is an error.\<close>

definition decimal_value :: "string \<Rightarrow> nat" where
  "decimal_value s = foldl (\<lambda>a c. a * 10 + digit_val c) 0 s"

definition ParseUint :: "string \<Rightarrow> nat option" where
  "ParseUint s =
     (if s = [] \<or> \<not> list_all is_digit s then None
      else if decimal_value s \<ge> 2 ^ 64 then None
      else Some (decimal_value s))"

text \<open>\<^verbatim>\<open>strconv.Atoi\<close>: an optional sign \<^verbatim>\<open>+\<close> or \<^verbatim>\<open>-\<close>, then
  \<open>ParseUint\<close>, then the range check of a signed 64-bit integer. \<open>None\<close> stands for
  a non-nil error (syntax or range).\<close>

definition Atoi :: "string \<Rightarrow> int option" where
  "Atoi s =
     (case s of
        [] \<Rightarrow> None
      | c # cs \<Rightarrow>
          (let neg = (c = CHR ''-'');
               s' = (if c = CHR ''+'' \<or> c = CHR ''-'' then cs else s)
           in case ParseUint s' of
                None \<Rightarrow> None
              | Some un \<Rightarrow>
                  if \<not> neg \<and> un \<ge> 2 ^ 63 then None
                  else if neg \<and> un > 2 ^ 63 then None
                  else Some (if neg then - int un else int un)))"

text \<open>\<^verbatim>\<open>strconv.Itoa\<close>: decimal digits without leading zeros, \<^verbatim>\<open>-\<close> in front of a
  negative number.\<close>

fun digits :: "nat \<Rightarrow> string" where
  "digits n = (if n < 10 then [digit_char n] else digits (n div 10) @ [digit_char (n mod 10)])"

declare digits.simps [simp del]

definition Itoa :: "int \<Rightarrow> string" where
  "Itoa i = (if i < 0 then CHR ''-'' # digits (nat (- i)) else digits (nat i))"

text \<open>
  \<^verbatim>\<open>strings.TrimSpace\<close> removes leading and trailing white space as
  \<^verbatim>\<open>unicode.IsSpace\<close> defines it. On the bytes of a string this removes, from each
  end, the UTF-8 encodings of the white-space runes: the six ASCII ones, U+0085, U+00A0,
  U+1680, U+2000 to U+200A, U+2028, U+2029, U+202F, U+205F and U+3000. A byte sequence
  that is not the encoding of such a rune stops the trimming.
\<close>

definition space_runes :: "string list" where
  "space_runes =
     [[CHR 0x09], [CHR 0x0A], [CHR 0x0B], [CHR 0x0C], [CHR 0x0D], [CHR 0x20],
      [CHR 0xC2, CHR 0x85], [CHR 0xC2, CHR 0xA0],
      [CHR 0xE1, CHR 0x9A, CHR 0x80],
      [CHR 0xE2, CHR 0x80, CHR 0x80], [CHR 0xE2, CHR 0x80, CHR 0x81],
      [CHR 0xE2, CHR 0x80, CHR 0x82], [CHR 0xE2, CHR 0x80, CHR 0x83],
      [CHR 0xE2, CHR 0x80, CHR 0x84], [CHR 0xE2, CHR 0x80, CHR 0x85],
      [CHR 0xE2, CHR 0x80, CHR 0x86], [CHR 0xE2, CHR 0x80, CHR 0x87],
      [CHR 0xE2, CHR 0x80, CHR 0x88], [CHR 0xE2, CHR 0x80, CHR 0x89],
      [CHR 0xE2, CHR 0x80, CHR 0x8A],
      [CHR 0xE2, CHR 0x80, CHR 0xA8], [CHR 0xE2, CHR 0x80, CHR 0xA9],
      [CHR 0xE2, CHR 0x80, CHR 0xAF], [CHR 0xE2, CHR 0x81, CHR 0x9F],
      [CHR 0xE3, CHR 0x80, CHR 0x80]]"

text \<open>The number of bytes of the rune of \<open>qs\<close> that \<open>s\<close> starts with; 0 if there is
  none.\<close>

definition rune_prefix :: "string list \<Rightarrow> string \<Rightarrow> nat" where
  "rune_prefix qs s =
     (case find (\<lambda>q. take (length q) s = q) qs of None \<Rightarrow> 0 | Some q \<Rightarrow> length q)"

function trim_prefix :: "string list \<Rightarrow> string \<Rightarrow> string" where
  "trim_prefix qs s =
     (let n = rune_prefix qs s in if n = 0 then s else trim_prefix qs (drop n s))"
  by pat_completeness auto
termination
proof (relation "measure (\<lambda>(qs, s). length s)")
  show "wf (measure (\<lambda>(qs, s). length s))" by simp
next
  fix qs :: "string list" and s :: string and n :: nat
  assume n: "n = rune_prefix qs s" and "n \<noteq> 0"
  have "n \<le> length s"
  proof (cases "find (\<lambda>q. take (length q) s = q) qs")
    case None
    with n show ?thesis by (simp add: rune_prefix_def)
  next
    case (Some q)
    then have "take (length q) s = q" by (auto simp: find_Some_iff)
    then have "length (take (length q) s) = length q" by simp
    then have "length q \<le> length s" by simp
    with Some n show ?thesis by (simp add: rune_prefix_def)
  qed
  with \<open>n \<noteq> 0\<close> show "((qs, drop n s), (qs, s)) \<in> measure (\<lambda>(qs, s). length s)" by simp
qed

declare trim_prefix.simps [simp del]

definition TrimLeft :: "string \<Rightarrow> string" where
  "TrimLeft s = trim_prefix space_runes s"

definition TrimRight :: "string \<Rightarrow> string" where
  "TrimRight s = rev (trim_prefix (map rev space_runes) (rev s))"

definition TrimSpace :: "string \<Rightarrow> string" where
  "TrimSpace s = TrimRight (TrimLeft s)"

section \<open>The operating system as seen by the lock manager\<close>

text \<open>
  The lock manager acts on the world only through \<^verbatim>\<open>os.Stat\<close>,
  \<^verbatim>\<open>os.ReadFile\<close>, \<^verbatim>\<open>os.Remove\<close>, \<^verbatim>\<open>os.WriteFile\<close>,
  \<^verbatim>\<open>time.Sleep\<close> and the two platform primitives for processes. The world is
  an explicit state: the files by path, the processes by PID, the faults the environment
  injects into each kind of file operation, and the trace of the operations performed.
\<close>

datatype proc = Dead | Alive | Dying nat
  \<comment> \<open>\<open>Dying n\<close>: still running, gone after \<open>n + 1\<close> further sleeps of 100 ms\<close>

datatype event =
    Ev_stat | Ev_read | Ev_remove | Ev_write string
  | Ev_check int bool | Ev_kill int | Ev_sleep

record world =
  files :: "string \<rightharpoonup> string"
  stat_fault :: bool
  read_fault :: bool
  remove_fault :: bool
  write_fault :: "string option option"
    \<comment> \<open>\<open>None\<close>: writing works; \<open>Some f\<close>: writing fails and leaves the file as \<open>f\<close>\<close>
  procs :: "int \<Rightarrow> proc"
  kill_resp :: "int \<Rightarrow> proc option"
    \<comment> \<open>\<open>None\<close>: the kill request fails; \<open>Some st\<close>: it succeeds and the process
        becomes \<open>st\<close>\<close>
  trace :: "event list"

definition log :: "event \<Rightarrow> world \<Rightarrow> world" where
  "log e w = w\<lparr>trace := trace w @ [e]\<rparr>"

text \<open>\<^verbatim>\<open>os.Stat\<close>: the result is \<open>True\<close> when the error is nil.\<close>

definition os_Stat :: "string \<Rightarrow> world \<Rightarrow> bool \<times> world" where
  "os_Stat path w = (files w path \<noteq> None \<and> \<not> stat_fault w, log Ev_stat w)"

text \<open>\<^verbatim>\<open>os.ReadFile\<close>: \<open>None\<close> is a non-nil error.\<close>

definition os_ReadFile :: "string \<Rightarrow> world \<Rightarrow> string option \<times> world" where
  "os_ReadFile path w = (if read_fault w then None else files w path, log Ev_read w)"

text \<open>\<^verbatim>\<open>os.Remove\<close>: the result is \<open>True\<close> when the error is nil.\<close>

definition os_Remove :: "string \<Rightarrow> world \<Rightarrow> bool \<times> world" where
  "os_Remove path w =
     (if files w path \<noteq> None \<and> \<not> remove_fault w
      then (True, log Ev_remove (w\<lparr>files := (files w)(path := None)\<rparr>))
      else (False, log Ev_remove w))"

text \<open>\<^verbatim>\<open>os.WriteFile\<close> creates or truncates the file and writes the whole content;
  the result is \<open>True\<close> when the error is nil.\<close>

definition os_WriteFile :: "string \<Rightarrow> string \<Rightarrow> world \<Rightarrow> bool \<times> world" where
  "os_WriteFile path content w =
     (case write_fault w of
        None \<Rightarrow> (True, log (Ev_write content) (w\<lparr>files := (files w)(path \<mapsto> content)\<rparr>))
      | Some f \<Rightarrow> (False, log (Ev_write content) (w\<lparr>files := (files w)(path := f)\<rparr>)))"

fun tick :: "proc \<Rightarrow> proc" where
  "tick Dead = Dead"
| "tick Alive = Alive"
| "tick (Dying 0) = Dead"
| "tick (Dying (Suc n)) = Dying n"

text \<open>\<^verbatim>\<open>time.Sleep(100 * time.Millisecond)\<close>: one step of time for every process.\<close>

definition time_Sleep :: "world \<Rightarrow> world" where
  "time_Sleep w = log Ev_sleep (w\<lparr>procs := (\<lambda>p. tick (procs w p))\<rparr>)"

text \<open>
  Modelled from the spec: \<^verbatim>\<open>checkProcessRunningPlatformSpecific\<close> and
  \<^verbatim>\<open>killProcessPlatformSpecific\<close> are declared in platform files that are not part
  of the sources. The spec describes them as a liveness check that takes a PID and answers
  alive or dead, and a termination primitive that takes a PID, requests immediate
  termination and may fail. The kill returns \<open>True\<close> when its error is nil.
\<close>

definition checkProcessRunningPlatformSpecific :: "int \<Rightarrow> world \<Rightarrow> bool \<times> world" where
  "checkProcessRunningPlatformSpecific p w =
     (procs w p \<noteq> Dead, log (Ev_check p (procs w p \<noteq> Dead)) w)"

definition killProcessPlatformSpecific :: "int \<Rightarrow> world \<Rightarrow> bool \<times> world" where
  "killProcessPlatformSpecific p w =
     (case kill_resp w p of
        None \<Rightarrow> (False, log (Ev_kill p) w)
      | Some st \<Rightarrow> (True, log (Ev_kill p) (w\<lparr>procs := (procs w)(p := st)\<rparr>)))"

section \<open>The singleton lock manager\<close>

record InstanceLock =
  lockFilePath :: string
  pid :: int

datatype lock_error = Kill_failed int | Create_failed

text \<open>A Go result \<^verbatim>\<open>(bool, error)\<close>: \<open>Inl e\<close> is \<^verbatim>\<open>(false, e)\<close> with a non-nil
  error, \<open>Inr b\<close> is \<^verbatim>\<open>(b, nil)\<close>. Acquired is \<open>Inr True\<close>, Rejected is
  \<open>Inr False\<close>.\<close>

type_synonym lock_result = "lock_error + bool"

definition isProcessRunning :: "InstanceLock \<Rightarrow> int \<Rightarrow> world \<Rightarrow> bool \<times> world" where
  "isProcessRunning l p w = checkProcessRunningPlatformSpecific p w"

definition killProcess :: "InstanceLock \<Rightarrow> int \<Rightarrow> world \<Rightarrow> bool \<times> world" where
  "killProcess l p w = killProcessPlatformSpecific p w"

definition createLock :: "InstanceLock \<Rightarrow> world \<Rightarrow> lock_result \<times> world" where
  "createLock l w =
     (case os_WriteFile (lockFilePath l) (Itoa (pid l)) w of
        (False, w') \<Rightarrow> (Inl Create_failed, w')
      | (True, w') \<Rightarrow> (Inr True, w'))"

text \<open>The waiting loop of \<^verbatim>\<open>TryLockWithKill\<close>, with the number of iterations that
  remain: \<^verbatim>\<open>for i := 0; i < 10; i++\<close> is \<open>wait_for_exit 10\<close>.\<close>

fun wait_for_exit :: "nat \<Rightarrow> InstanceLock \<Rightarrow> int \<Rightarrow> world \<Rightarrow> world" where
  "wait_for_exit 0 l p w = w"
| "wait_for_exit (Suc n) l p w =
     (case isProcessRunning l p w of
        (False, w') \<Rightarrow> w'
      | (True, w') \<Rightarrow> wait_for_exit n l p (time_Sleep w'))"

definition TryLockWithKill :: "InstanceLock \<Rightarrow> bool \<Rightarrow> world \<Rightarrow> lock_result \<times> world" where
  "TryLockWithKill l killExisting w =
     (case os_Stat (lockFilePath l) w of
        (False, w1) \<Rightarrow> createLock l w1
      | (True, w1) \<Rightarrow>
          (case os_ReadFile (lockFilePath l) w1 of
             (None, w2) \<Rightarrow> createLock l (snd (os_Remove (lockFilePath l) w2))
           | (Some pidBytes, w2) \<Rightarrow>
               (case Atoi (TrimSpace pidBytes) of
                  None \<Rightarrow> createLock l (snd (os_Remove (lockFilePath l) w2))
                | Some existingPID \<Rightarrow>
                    if existingPID = pid l then (Inr True, w2)
                    else
                      (case isProcessRunning l existingPID w2 of
                         (True, w3) \<Rightarrow>
                           if killExisting then
                             (case killProcess l existingPID w3 of
                                (False, w4) \<Rightarrow> (Inl (Kill_failed existingPID), w4)
                              | (True, w4) \<Rightarrow>
                                  createLock l
                                    (snd (os_Remove (lockFilePath l)
                                       (wait_for_exit 10 l existingPID w4))))
                           else (Inr False, w3)
                       | (False, w3) \<Rightarrow>
                           createLock l (snd (os_Remove (lockFilePath l) w3))))))"

definition TryLock :: "InstanceLock \<Rightarrow> world \<Rightarrow> lock_result \<times> world" where
  "TryLock l w = TryLockWithKill l False w"

definition Unlock :: "InstanceLock \<Rightarrow> world \<Rightarrow> bool \<times> world" where
  "Unlock l w = os_Remove (lockFilePath l) w"

text \<open>
  \<^verbatim>\<open>filepath.Join\<close> on a host whose path separator is \<^verbatim>\<open>/\<close>: the elements
  from the first non-empty one on are joined with the separator and the result is
  cleaned. \<^verbatim>\<open>filepath.Clean\<close> drops empty elements and \<^verbatim>\<open>.\<close> elements, lets a
  \<^verbatim>\<open>..\<close> element remove the element before it (dropping it at the root, keeping
  it at the start of a relative path), and returns \<^verbatim>\<open>.\<close> for an empty result.
\<close>

fun path_elements :: "string \<Rightarrow> string \<Rightarrow> string list" where
  "path_elements cur [] = [cur]"
| "path_elements cur (c # cs) =
     (if c = CHR ''/'' then cur # path_elements [] cs else path_elements (cur @ [c]) cs)"

definition clean_step :: "bool \<Rightarrow> string list \<Rightarrow> string \<Rightarrow> string list" where
  "clean_step rooted out e =
     (if e = [] \<or> e = ''.'' then out
      else if e = ''..'' then
        (if out \<noteq> [] \<and> last out \<noteq> ''..'' then butlast out
         else if rooted then out
         else out @ [''..''])
      else out @ [e])"

fun join_elements :: "string list \<Rightarrow> string" where
  "join_elements [] = []"
| "join_elements [e] = e"
| "join_elements (e # e' # es) = e @ ''/'' @ join_elements (e' # es)"

definition filepath_Clean :: "string \<Rightarrow> string" where
  "filepath_Clean path =
     (case path of
        [] \<Rightarrow> ''.''
      | c # cs \<Rightarrow>
          (let rooted = (c = CHR ''/'');
               out = foldl (clean_step rooted) [] (path_elements [] path)
           in if rooted then CHR ''/'' # join_elements out
              else if out = [] then ''.''
              else join_elements out))"

definition filepath_Join :: "string \<Rightarrow> string \<Rightarrow> string" where
  "filepath_Join a b =
     (if a \<noteq> [] then filepath_Clean (a @ ''/'' @ b)
      else if b \<noteq> [] then filepath_Clean b
      else [])"

text \<open>\<^verbatim>\<open>New\<close> joins the temporary directory and the fixed file name and takes the
  PID of the calling process; \<open>tempDir\<close> is what \<^verbatim>\<open>os.TempDir()\<close> returns and
  \<open>getpid\<close> what \<^verbatim>\<open>os.Getpid()\<close> returns.\<close>

definition lockFileName :: string where
  "lockFileName = ''matlab-mcp-core-server.lock''"

definition New :: "string \<Rightarrow> int \<Rightarrow> InstanceLock" where
  "New tempDir getpid = \<lparr>lockFilePath = filepath_Join tempDir lockFileName, pid = getpid\<rparr>"

text \<open>A host without faults whose lock file has the given content (\<open>None\<close>: no lock
  file), for the concrete runs below.\<close>

definition host :: "string option \<Rightarrow> (int \<Rightarrow> proc) \<Rightarrow> (int \<Rightarrow> proc option) \<Rightarrow> world" where
  "host content ps kr =
     \<lparr>files = (\<lambda>path. if path = ''/tmp/matlab-mcp-core-server.lock'' then content else None),
      stat_fault = False, read_fault = False, remove_fault = False, write_fault = None,
      procs = ps, kill_resp = kr, trace = []\<rparr>"

text \<open>Two answers of the platform to a kill request, for the concrete runs below: the
  request succeeds and the process survives it, or it succeeds and the process is gone
  after \<open>n + 1\<close> sleeps.\<close>

definition kill_survived :: "int \<Rightarrow> proc option" where
  "kill_survived p = Some Alive"

definition kill_after :: "nat \<Rightarrow> int \<Rightarrow> proc option" where
  "kill_after n p = Some (Dying n)"

text \<open>The processes of the given PIDs run, all others are dead.\<close>

definition running :: "int list \<Rightarrow> int \<Rightarrow> proc" where
  "running ps p = (if p \<in> set ps then Alive else Dead)"

text \<open>
  The shape of the trace of the waiting loop with a budget of \<open>n\<close> checks: \<open>k\<close>
  checks that see the process running, each followed by a sleep, and then, if the budget
  is not used up, the check that sees it dead. \<open>liveness_checks\<close> counts the liveness
  checks in a trace.
\<close>

definition polls :: "int \<Rightarrow> nat \<Rightarrow> nat \<Rightarrow> event list" where
  "polls p n k =
     concat (replicate k [Ev_check p True, Ev_sleep]) @
     (if k < n then [Ev_check p False] else [])"

definition liveness_checks :: "event list \<Rightarrow> nat" where
  "liveness_checks es =
     length (filter (\<lambda>e. case e of Ev_check p r \<Rightarrow> True | _ \<Rightarrow> False) es)"

text \<open>
  What the waiting loop with a budget of \<open>n\<close> checks meets when the process is in a
  given state at its start: \<open>unsuccessful_checks\<close> is the number of checks that see the
  process running (each is followed by a sleep), and \<open>dies_within\<close> tells whether the
  process is dead when the loop ends.
\<close>

fun unsuccessful_checks :: "nat \<Rightarrow> proc \<Rightarrow> nat" where
  "unsuccessful_checks n Dead = 0"
| "unsuccessful_checks n Alive = n"
| "unsuccessful_checks n (Dying m) = min n (Suc m)"


section \<open>The client factory for a pinned self-signed certificate\<close>

text \<open>
  Instants of time are integers (nanoseconds), a duration is added with \<open>+\<close>:
  \<^verbatim>\<open>t.After(u)\<close> is \<open>u < t\<close> and \<^verbatim>\<open>t.Before(u)\<close> is \<open>t < u\<close>. Of a
  certificate the code reads only the two ends of the validity window; the rest is the
  encoded form.
\<close>

record Certificate =
  NotBefore :: int
  NotAfter :: int
  Raw :: string

type_synonym CertPool = "Certificate list"

record VerifyOptions =
  Roots :: CertPool
  CurrentTime :: "int option"
    \<comment> \<open>\<open>None\<close> is the zero value: \<^verbatim>\<open>Verify\<close> then uses the current time\<close>

text \<open>
  The functions of \<^verbatim>\<open>crypto/x509\<close> and \<^verbatim>\<open>net/http/cookiejar\<close> that the factory
  calls are parameters: the certificates found in a PEM text, the parser of one encoded
  certificate, the verification of a chain from a leaf to a pool of roots at a reference
  time (\<open>None\<close>: verified), and the outcome of creating a cookie jar. Errors of the
  libraries are their messages.
\<close>

type_synonym Jar = "(string \<times> string) list"

record crypto =
  pem_certificates :: "string \<Rightarrow> Certificate list"
  ParseCertificate :: "string \<Rightarrow> string + Certificate"
  verify_chain :: "Certificate \<Rightarrow> CertPool \<Rightarrow> int \<Rightarrow> string option"
  cookiejar_New :: "string + Jar"

text \<open>\<^verbatim>\<open>(*CertPool).AppendCertsFromPEM\<close> appends the certificates found and reports
  whether any certificate was parsed.\<close>

definition AppendCertsFromPEM :: "crypto \<Rightarrow> CertPool \<Rightarrow> string \<Rightarrow> CertPool \<times> bool" where
  "AppendCertsFromPEM lib pool pemCerts =
     (pool @ pem_certificates lib pemCerts, pem_certificates lib pemCerts \<noteq> [])"

text \<open>A call of \<^verbatim>\<open>(*Certificate).Verify\<close> is recorded with the leaf, the roots and the
  reference time it used. The clock is read as \<open>clock\<close> throughout one handshake.\<close>

type_synonym verify_call = "Certificate \<times> CertPool \<times> int"

definition Verify ::
  "crypto \<Rightarrow> int \<Rightarrow> Certificate \<Rightarrow> VerifyOptions \<Rightarrow> verify_call list
     \<Rightarrow> string option \<times> verify_call list" where
  "Verify lib clock c opts calls =
     (let t = (case CurrentTime opts of None \<Rightarrow> clock | Some t' \<Rightarrow> t')
      in (verify_chain lib c (Roots opts) t, calls @ [(c, Roots opts, t)]))"

definition clockSkewTolerance :: int where
  "clockSkewTolerance = 24 * (3600 * 1000000000)"

datatype verification_error =
    Parse_failed string
  | No_certificates
  | Not_yet_valid int int
  | Expired int int
  | Verification_failed string

text \<open>The loop that parses the raw chain (it returns at the first certificate that does
  not parse).\<close>

fun parse_chain :: "crypto \<Rightarrow> string list \<Rightarrow> Certificate list \<Rightarrow> string + Certificate list" where
  "parse_chain lib [] certs = Inr certs"
| "parse_chain lib (rawCert # rest) certs =
     (case ParseCertificate lib rawCert of
        Inl err \<Rightarrow> Inl err
      | Inr cert \<Rightarrow> parse_chain lib rest (certs @ [cert]))"

text \<open>The loop of the coarse check of every certificate against the tolerance window.\<close>

fun check_skew :: "int \<Rightarrow> int \<Rightarrow> Certificate list \<Rightarrow> verification_error option" where
  "check_skew earliestValid latestValid [] = None"
| "check_skew earliestValid latestValid (cert # rest) =
     (if latestValid < NotBefore cert then Some (Not_yet_valid (NotBefore cert) latestValid)
      else if NotAfter cert < earliestValid then Some (Expired (NotAfter cert) earliestValid)
      else check_skew earliestValid latestValid rest)"

text \<open>The loop over the adjusted reference times: \<open>None\<close> when an attempt verified,
  otherwise the last error.\<close>

fun verify_adjusted ::
  "crypto \<Rightarrow> int \<Rightarrow> Certificate \<Rightarrow> VerifyOptions \<Rightarrow> string \<Rightarrow> int list \<Rightarrow> verify_call list
     \<Rightarrow> string option \<times> verify_call list" where
  "verify_adjusted lib clock c opts lastErr [] calls = (Some lastErr, calls)"
| "verify_adjusted lib clock c opts lastErr (checkTime # rest) calls =
     (case Verify lib clock c (opts\<lparr>CurrentTime := Some checkTime\<rparr>) calls of
        (None, calls') \<Rightarrow> (None, calls')
      | (Some err, calls') \<Rightarrow>
          verify_adjusted lib clock c (opts\<lparr>CurrentTime := Some checkTime\<rparr>) err rest calls')"

text \<open>The callback \<^verbatim>\<open>VerifyPeerCertificate\<close> of the transport, closed over the pool.
  Its second argument, the verified chains, is not used by the code. The result is the
  error (\<open>None\<close> is nil) and the calls of \<open>Verify\<close> that were made.\<close>

definition VerifyPeerCertificate ::
  "crypto \<Rightarrow> int \<Rightarrow> CertPool \<Rightarrow> string list \<Rightarrow> verification_error option \<times> verify_call list" where
  "VerifyPeerCertificate lib clock caCertPool rawCerts =
     (case parse_chain lib rawCerts [] of
        Inl err \<Rightarrow> (Some (Parse_failed err), [])
      | Inr [] \<Rightarrow> (Some No_certificates, [])
      | Inr (cert0 # others) \<Rightarrow>
          (let now = clock;
               earliestValid = now + (- clockSkewTolerance);
               latestValid = now + clockSkewTolerance
           in case check_skew earliestValid latestValid (cert0 # others) of
                Some e \<Rightarrow> (Some e, [])
              | None \<Rightarrow>
                  (let opts = \<lparr>Roots = caCertPool, CurrentTime = None\<rparr>
                   in case Verify lib clock cert0 opts [] of
                        (None, calls) \<Rightarrow> (None, calls)
                      | (Some err, calls) \<Rightarrow>
                          (case verify_adjusted lib clock cert0 opts err
                                  [now + clockSkewTolerance, now + (- clockSkewTolerance)] calls of
                             (None, calls') \<Rightarrow> (None, calls')
                           | (Some lastErr, calls') \<Rightarrow>
                               (Some (Verification_failed lastErr), calls')))))"

record tls_Config =
  MinVersion :: nat
  RootCAs :: CertPool
  InsecureSkipVerify :: bool

record http_Client =
  Transport :: tls_Config
  CookieJar :: Jar

datatype factory_error = Append_failed | Jar_failed string

definition VersionTLS12 :: nat where
  "VersionTLS12 = 0x0303"

text \<open>The Go result \<^verbatim>\<open>(HttpClient, error)\<close> is a pair: \<open>None\<close> on the left is the
  nil client, \<open>None\<close> on the right the nil error.\<close>

definition NewClientForSelfSignedTLSServer ::
  "crypto \<Rightarrow> string \<Rightarrow> http_Client option \<times> factory_error option" where
  "NewClientForSelfSignedTLSServer lib certificatePEM =
     (case AppendCertsFromPEM lib [] certificatePEM of
        (caCertPool, ok) \<Rightarrow>
          if \<not> ok then (None, Some Append_failed)
          else
            (let transport =
                   \<lparr>MinVersion = VersionTLS12, RootCAs = caCertPool, InsecureSkipVerify = True\<rparr>
             in case cookiejar_New lib of
                  Inl err \<Rightarrow> (None, Some (Jar_failed err))
                | Inr jar \<Rightarrow> (Some \<lparr>Transport = transport, CookieJar = jar\<rparr>, None)))"

text \<open>
  A concrete library for the runs below: one certificate valid from 0 to \<open>10\<^sup>1\<^sup>3\<close> ns,
  one that becomes valid at \<open>10\<^sup>1\<^sup>5\<close> ns, a chain verification that checks membership
  of the leaf in the pool and the validity window at the reference time.
\<close>

definition short_cert :: Certificate where
  "short_cert = \<lparr>NotBefore = 0, NotAfter = 10000000000000, Raw = ''short''\<rparr>"

definition future_cert :: Certificate where
  "future_cert =
     \<lparr>NotBefore = 1000000000000000, NotAfter = 2000000000000000, Raw = ''future''\<rparr>"

definition example_crypto :: crypto where
  "example_crypto =
     \<lparr>pem_certificates = (\<lambda>pem. if pem = ''short.pem'' then [short_cert] else []),
      ParseCertificate =
        (\<lambda>raw. if raw = ''short'' then Inr short_cert
               else if raw = ''future'' then Inr future_cert
               else Inl ''malformed certificate''),
      verify_chain =
        (\<lambda>c pool t. if c \<notin> set pool then Some ''unknown authority''
                    else if t < NotBefore c then Some ''not yet valid''
                    else if NotAfter c < t then Some ''expired''
                    else None),
      cookiejar_New = Inr []\<rparr>"

section \<open>Writing a PID and reading it back\<close>

text \<open>
  The digits that \<open>Itoa\<close> writes are read back by \<open>Atoi\<close> as the same number, for
  every number in the range of a Go \<^verbatim>\<open>int\<close>, and \<open>TrimSpace\<close> leaves them as they
  are: they neither start nor end with a byte of a white-space rune.
\<close>

lemma is_digit_digit_char: "d < 10 \<Longrightarrow> is_digit (digit_char d)"
  by (simp add: is_digit_def digit_char_def)

lemma digit_val_digit_char: "d < 10 \<Longrightarrow> digit_val (digit_char d) = d"
  by (simp add: digit_val_def digit_char_def)

lemma digits_not_Nil: "digits n \<noteq> []"
  by (subst digits.simps) simp

lemma digits_all_digit: "list_all is_digit (digits n)"
proof (induction n rule: digits.induct)
  case (1 n)
  show ?case
  proof (cases "n < 10")
    case True
    then show ?thesis by (subst digits.simps) (simp add: is_digit_digit_char)
  next
    case False
    with "1" show ?thesis by (subst digits.simps) (simp add: is_digit_digit_char)
  qed
qed

lemma decimal_value_snoc: "decimal_value (s @ [c]) = decimal_value s * 10 + digit_val c"
  by (simp add: decimal_value_def)

lemma decimal_value_digits: "decimal_value (digits n) = n"
proof (induction n rule: digits.induct)
  case (1 n)
  show ?case
  proof (cases "n < 10")
    case True
    then show ?thesis
      by (subst digits.simps) (simp add: decimal_value_def digit_val_digit_char)
  next
    case False
    with "1" have "decimal_value (digits (n div 10)) = n div 10" by simp
    with False show ?thesis
      by (subst digits.simps) (simp add: decimal_value_snoc digit_val_digit_char)
  qed
qed

lemma ParseUint_digits: "n < 2 ^ 64 \<Longrightarrow> ParseUint (digits n) = Some n"
  by (simp add: ParseUint_def digits_not_Nil digits_all_digit decimal_value_digits)

lemma hd_digits_digit: "is_digit (hd (digits n))"
  using digits_all_digit [of n] digits_not_Nil [of n]
  by (cases "digits n") simp_all

lemma last_digits_digit: "is_digit (last (digits n))"
  using digits_all_digit [of n] digits_not_Nil [of n]
  by (simp add: list_all_iff)

lemma is_digit_not_sign: "is_digit c \<Longrightarrow> c \<noteq> CHR ''-'' \<and> c \<noteq> CHR ''+''"
  by (auto simp: is_digit_def)

lemma Atoi_Itoa: "go_int i \<Longrightarrow> Atoi (Itoa i) = Some i"
proof (cases "i < 0")
  case True
  assume "go_int i"
  with True have "nat (- i) \<le> 2 ^ 63" by (simp add: go_int_def nat_le_iff)
  moreover then have "nat (- i) < 2 ^ 64" by simp
  ultimately show ?thesis using True
    by (simp add: Atoi_def Itoa_def ParseUint_digits)
next
  case False
  assume "go_int i"
  with False have b: "nat i < 2 ^ 63" by (simp add: go_int_def nat_less_iff)
  then have b': "nat i < 2 ^ 64" by simp
  obtain c cs where d: "digits (nat i) = c # cs"
    using digits_not_Nil [of "nat i"] by (cases "digits (nat i)") auto
  with hd_digits_digit [of "nat i"] have "is_digit c" by simp
  then have "c \<noteq> CHR ''-''" "c \<noteq> CHR ''+''" using is_digit_not_sign by blast+
  with False b d ParseUint_digits [OF b'] show ?thesis
    by (simp add: Atoi_def Itoa_def)
qed

lemma Atoi_go_int: "Atoi s = Some i \<Longrightarrow> go_int i"
  by (auto simp: Atoi_def go_int_def Let_def split: list.splits option.splits if_splits)

lemma rune_prefix_0:
  assumes "s \<noteq> []" and "[] \<notin> set qs" and "hd s \<notin> hd ` set qs"
  shows "rune_prefix qs s = 0"
proof -
  have "find (\<lambda>q. take (length q) s = q) qs = None"
  proof (rule ccontr)
    assume "find (\<lambda>q. take (length q) s = q) qs \<noteq> None"
    then obtain q where q: "q \<in> set qs" "take (length q) s = q"
      by (auto simp: find_None_iff)
    with assms(2) have "q \<noteq> []" by auto
    with q(2) assms(1) have "hd q = hd s" by (cases q; cases s) auto
    then have "hd s \<in> hd ` set qs" using q(1) by (metis imageI)
    with assms(3) show False by simp
  qed
  then show ?thesis by (simp add: rune_prefix_def)
qed

lemma trim_prefix_id:
  "s \<noteq> [] \<Longrightarrow> [] \<notin> set qs \<Longrightarrow> hd s \<notin> hd ` set qs \<Longrightarrow> trim_prefix qs s = s"
  by (subst trim_prefix.simps) (simp add: rune_prefix_0)

lemma digit_not_space_first: "is_digit c \<or> c = CHR ''-'' \<Longrightarrow> c \<notin> hd ` set space_runes"
  by (auto simp: space_runes_def is_digit_def)

lemma digit_not_space_last: "is_digit c \<Longrightarrow> c \<notin> hd ` set (map rev space_runes)"
  by (auto simp: space_runes_def is_digit_def)

lemma Nil_not_space: "[] \<notin> set space_runes" "[] \<notin> set (map rev space_runes)"
  by (simp_all add: space_runes_def)

lemma Itoa_ends: "Itoa i \<noteq> []" "is_digit (hd (Itoa i)) \<or> hd (Itoa i) = CHR ''-''" "is_digit (last (Itoa i))"
  using hd_digits_digit last_digits_digit digits_not_Nil by (simp_all add: Itoa_def)

lemma TrimSpace_Itoa: "TrimSpace (Itoa i) = Itoa i"
proof -
  have l: "TrimLeft (Itoa i) = Itoa i"
    unfolding TrimLeft_def
    by (rule trim_prefix_id) (simp_all add: Itoa_ends Nil_not_space digit_not_space_first)
  have "hd (rev (Itoa i)) = last (Itoa i)" using Itoa_ends(1) by (simp add: hd_rev)
  then have "trim_prefix (map rev space_runes) (rev (Itoa i)) = rev (Itoa i)"
    using Itoa_ends [of i] Nil_not_space(2) digit_not_space_last [of "last (Itoa i)"]
    by (intro trim_prefix_id) simp_all
  then show ?thesis by (simp add: TrimSpace_def TrimRight_def l)
qed

lemmas text_defs = Atoi_def ParseUint_def decimal_value_def digit_val_def is_digit_def
  TrimSpace_def TrimLeft_def TrimRight_def trim_prefix.simps rune_prefix_def space_runes_def
  Itoa_def digits.simps digit_char_def char_of_eq_iff

section \<open>Properties of the lock manager\<close>

lemmas os_defs = os_Stat_def os_ReadFile_def os_Remove_def os_WriteFile_def log_def
  createLock_def isProcessRunning_def killProcess_def
  checkProcessRunningPlatformSpecific_def killProcessPlatformSpecific_def time_Sleep_def

lemma New_tmp:
  "New ''/tmp'' p = \<lparr>lockFilePath = ''/tmp/matlab-mcp-core-server.lock'', pid = p\<rparr>"
  by (simp add: New_def lockFileName_def filepath_Join_def filepath_Clean_def clean_step_def)

lemmas example_defs = host_def New_tmp running_def kill_survived_def kill_after_def

text \<open>
  The waiting loop changes nothing but the processes (through the sleeps) and the trace.
  The state of the process at the start of the loop determines both: the trace is
  \<open>polls\<close> with \<open>unsuccessful_checks\<close> unsuccessful checks, and every process is
  moved on by one step of time for each of them.
\<close>

lemma wait_for_exit_frame:
  "files (wait_for_exit n l p w) = files w \<and>
   stat_fault (wait_for_exit n l p w) = stat_fault w \<and>
   read_fault (wait_for_exit n l p w) = read_fault w \<and>
   remove_fault (wait_for_exit n l p w) = remove_fault w \<and>
   write_fault (wait_for_exit n l p w) = write_fault w \<and>
   kill_resp (wait_for_exit n l p w) = kill_resp w"
  by (induction n arbitrary: w) (simp_all add: os_defs split: bool.splits)

lemma polls_Suc: "polls p (Suc n) (Suc k) = [Ev_check p True, Ev_sleep] @ polls p n k"
  by (simp add: polls_def)

lemma unsuccessful_checks_le: "unsuccessful_checks n st \<le> n"
  by (cases st) simp_all

lemma unsuccessful_checks_Suc:
  "st \<noteq> Dead \<Longrightarrow> unsuccessful_checks (Suc n) st = Suc (unsuccessful_checks n (tick st))"
proof (cases st)
  case (Dying m)
  then show ?thesis by (cases m) simp_all
qed simp_all

lemma wait_for_exit_trace:
  "trace (wait_for_exit n l p w) = trace w @ polls p n (unsuccessful_checks n (procs w p))"
proof (induction n arbitrary: w)
  case 0
  then show ?case by (cases "procs w p") (simp_all add: polls_def)
next
  case (Suc n)
  show ?case
  proof (cases "procs w p = Dead")
    case True
    then show ?thesis by (simp add: os_defs polls_def)
  next
    case False
    let ?w = "time_Sleep (snd (isProcessRunning l p w))"
    from False have run: "wait_for_exit (Suc n) l p w = wait_for_exit n l p ?w"
      by (simp add: os_defs)
    from False have t: "trace ?w = trace w @ [Ev_check p True, Ev_sleep]"
      by (simp add: os_defs)
    have s: "procs ?w p = tick (procs w p)" by (simp add: os_defs)
    from Suc.IH [of ?w] have
      "trace (wait_for_exit n l p ?w) =
         trace w @ [Ev_check p True, Ev_sleep] @ polls p n (unsuccessful_checks n (tick (procs w p)))"
      by (simp add: t s)
    then show ?thesis
      unfolding run by (simp add: unsuccessful_checks_Suc [OF False] polls_Suc)
  qed
qed

lemma wait_for_exit_procs:
  "procs (wait_for_exit n l p w) q = (tick ^^ unsuccessful_checks n (procs w p)) (procs w q)"
proof (induction n arbitrary: w)
  case 0
  then show ?case by (cases "procs w p") simp_all
next
  case (Suc n)
  show ?case
  proof (cases "procs w p = Dead")
    case True
    then show ?thesis by (simp add: os_defs)
  next
    case False
    let ?w = "time_Sleep (snd (isProcessRunning l p w))"
    from False have run: "wait_for_exit (Suc n) l p w = wait_for_exit n l p ?w"
      by (simp add: os_defs)
    have s: "procs ?w r = tick (procs w r)" for r by (simp add: os_defs)
    from Suc.IH [of ?w] have
      "procs (wait_for_exit n l p ?w) q =
         (tick ^^ unsuccessful_checks n (tick (procs w p))) (tick (procs w q))"
      by (simp add: s)
    then show ?thesis
      unfolding run by (simp add: unsuccessful_checks_Suc [OF False] funpow_swap1)
  qed
qed


lemma tick_Alive: "(tick ^^ k) Alive = Alive"
  by (induction k) simp_all

lemma liveness_checks_polls: "k \<le> n \<Longrightarrow> liveness_checks (polls p n k) \<le> n"
proof -
  have "liveness_checks (concat (replicate k [Ev_check p True, Ev_sleep])) = k"
    by (induction k) (simp_all add: liveness_checks_def)
  moreover assume "k \<le> n"
  ultimately show ?thesis by (simp add: polls_def liveness_checks_def)
qed

text \<open>
  Claim C1. Whatever PID \<open>P\<close> the content of an existing lock file parses to, if the
  liveness check reports \<open>P\<close> as not running and the final write of the lock file
  succeeds, then \<open>TryLockWithKill\<close>, with either value of \<open>killExisting\<close>, returns
  Acquired and the lock file afterwards holds the caller's PID as decimal text. The caller
  is itself a running process, so a PID that is reported dead is not the caller's. The
  result does not depend on faults of \<^verbatim>\<open>os.Stat\<close>, \<^verbatim>\<open>os.ReadFile\<close> or
  \<^verbatim>\<open>os.Remove\<close>: every such path ends in the same write.
\<close>

theorem stale_lock_is_taken_over:
  assumes "files w (lockFilePath l) = Some content"
    and "Atoi (TrimSpace content) = Some P"
    and "procs w P = Dead"
    and "procs w (pid l) \<noteq> Dead"
    and "write_fault w = None"
  shows "fst (TryLockWithKill l killExisting w) = Inr True \<and>
         files (snd (TryLockWithKill l killExisting w)) (lockFilePath l) = Some (Itoa (pid l))"
proof -
  from assms(3,4) have "P \<noteq> pid l" by auto
  with assms show ?thesis
    by (cases "stat_fault w"; cases "read_fault w")
       (simp_all add: TryLockWithKill_def os_defs)
qed

text \<open>
  The scenario of the spec: the lock file holds the dead PID 99999, the caller has PID
  4242 and does not ask to kill.
\<close>

theorem stale_lock_is_taken_over_witness:
  "fst (TryLockWithKill (New ''/tmp'' 4242) False
          (host (Some ''99999'') (running [4242]) (\<lambda>p. None))) = Inr True \<and>
   files (snd (TryLockWithKill (New ''/tmp'' 4242) False
          (host (Some ''99999'') (running [4242]) (\<lambda>p. None))))
     ''/tmp/matlab-mcp-core-server.lock'' = Some ''4242''"
proof -
  let ?l = "New ''/tmp'' 4242"
  let ?w = "host (Some ''99999'') (running [4242]) (\<lambda>p. None)"
  have h1: "files ?w (lockFilePath ?l) = Some ''99999''" by (simp add: example_defs)
  have h2: "Atoi (TrimSpace ''99999'') = Some 99999" by (simp add: text_defs)
  have h3: "procs ?w 99999 = Dead" by (simp add: example_defs)
  have h4: "procs ?w (pid ?l) \<noteq> Dead" by (simp add: example_defs)
  have h5: "write_fault ?w = None" by (simp add: example_defs)
  have i: "Itoa 4242 = ''4242''" by (simp add: text_defs)
  from stale_lock_is_taken_over [OF h1 h2 h3 h4 h5, of False] i show ?thesis
    by (simp add: New_tmp)
qed

text \<open>
  Claim C4. If the lock file holds a PID other than the caller's, that process is reported
  running and \<open>killExisting\<close> is false, then \<open>TryLockWithKill\<close> returns Rejected
  (false with a nil error) and the world is the one before the call except for the trace,
  which gains one \<^verbatim>\<open>os.Stat\<close>, one \<^verbatim>\<open>os.ReadFile\<close> and one liveness check: no
  write, no removal, no kill request; the files and the processes are unchanged.
\<close>

theorem live_owner_rejects_without_effect:
  assumes "files w (lockFilePath l) = Some content"
    and "\<not> stat_fault w" and "\<not> read_fault w"
    and "Atoi (TrimSpace content) = Some P"
    and "P \<noteq> pid l"
    and "procs w P \<noteq> Dead"
  shows "TryLockWithKill l False w =
           (Inr False, w\<lparr>trace := trace w @ [Ev_stat, Ev_read, Ev_check P True]\<rparr>)"
  using assms by (simp add: TryLockWithKill_def os_defs)

theorem live_owner_rejects_without_effect_witness:
  "fst (TryLockWithKill (New ''/tmp'' 4242) False
          (host (Some ''777'') (running [777, 4242]) (\<lambda>p. None))) = Inr False \<and>
   files (snd (TryLockWithKill (New ''/tmp'' 4242) False
          (host (Some ''777'') (running [777, 4242]) (\<lambda>p. None))))
     ''/tmp/matlab-mcp-core-server.lock'' = Some ''777'' \<and>
   procs (snd (TryLockWithKill (New ''/tmp'' 4242) False
          (host (Some ''777'') (running [777, 4242]) (\<lambda>p. None)))) 777 = Alive \<and>
   trace (snd (TryLockWithKill (New ''/tmp'' 4242) False
          (host (Some ''777'') (running [777, 4242]) (\<lambda>p. None)))) =
     [Ev_stat, Ev_read, Ev_check 777 True]"
proof -
  let ?l = "New ''/tmp'' 4242"
  let ?w = "host (Some ''777'') (running [777, 4242]) (\<lambda>p. None)"
  have h1: "files ?w (lockFilePath ?l) = Some ''777''" by (simp add: example_defs)
  have h2: "\<not> stat_fault ?w" by (simp add: example_defs)
  have h3: "\<not> read_fault ?w" by (simp add: example_defs)
  have h4: "Atoi (TrimSpace ''777'') = Some 777" by (simp add: text_defs)
  have h5: "777 \<noteq> pid ?l" by (simp add: example_defs)
  have h6: "procs ?w 777 \<noteq> Dead" by (simp add: example_defs)
  from live_owner_rejects_without_effect [OF h1 h2 h3 h4 h5 h6] show ?thesis
    by (simp add: example_defs)
qed

text \<open>
  Claim C6. If \<open>killExisting\<close> is true and the kill request for the running competitor
  fails, then \<open>TryLockWithKill\<close> returns an error that names the competitor, and the
  call ends there: the trace gains the kill request and nothing after it, so the lock file
  is neither removed nor rewritten, and it still holds the competitor's PID.
\<close>

theorem kill_failure_is_an_error:
  assumes "files w (lockFilePath l) = Some content"
    and "\<not> stat_fault w" and "\<not> read_fault w"
    and "Atoi (TrimSpace content) = Some P"
    and "P \<noteq> pid l"
    and "procs w P \<noteq> Dead"
    and "kill_resp w P = None"
  shows "TryLockWithKill l True w =
           (Inl (Kill_failed P),
            w\<lparr>trace := trace w @ [Ev_stat, Ev_read, Ev_check P True, Ev_kill P]\<rparr>)"
  using assms by (simp add: TryLockWithKill_def os_defs)

theorem kill_failure_is_an_error_witness:
  "fst (TryLockWithKill (New ''/tmp'' 4242) True
          (host (Some ''777'') (running [777, 4242]) (\<lambda>p. None))) = Inl (Kill_failed 777) \<and>
   files (snd (TryLockWithKill (New ''/tmp'' 4242) True
          (host (Some ''777'') (running [777, 4242]) (\<lambda>p. None))))
     ''/tmp/matlab-mcp-core-server.lock'' = Some ''777''"
proof -
  let ?l = "New ''/tmp'' 4242"
  let ?w = "host (Some ''777'') (running [777, 4242]) (\<lambda>p. None)"
  have h1: "files ?w (lockFilePath ?l) = Some ''777''" by (simp add: example_defs)
  have h2: "\<not> stat_fault ?w" by (simp add: example_defs)
  have h3: "\<not> read_fault ?w" by (simp add: example_defs)
  have h4: "Atoi (TrimSpace ''777'') = Some 777" by (simp add: text_defs)
  have h5: "777 \<noteq> pid ?l" by (simp add: example_defs)
  have h6: "procs ?w 777 \<noteq> Dead" by (simp add: example_defs)
  have h7: "kill_resp ?w 777 = None" by (simp add: example_defs)
  from kill_failure_is_an_error [OF h1 h2 h3 h4 h5 h6 h7] show ?thesis
    by (simp add: example_defs)
qed

text \<open>
  Claim C10. With \<open>killExisting\<close> true the call never returns Rejected: in every world
  it returns Acquired or an error. Equivalently, a call that returns Rejected was made with
  \<open>killExisting\<close> false.
\<close>

theorem kill_never_rejects:
  "(fst (TryLockWithKill l True w) = Inr True \<or> (\<exists>e. fst (TryLockWithKill l True w) = Inl e)) \<and>
   (fst (TryLockWithKill l killExisting w) = Inr False \<longrightarrow> \<not> killExisting)"
  by (auto simp: TryLockWithKill_def os_defs split: option.splits bool.splits)

text \<open>
  Rejected is reached with \<open>killExisting\<close> false on a host where the owner 777 runs;
  on the same host the call with \<open>killExisting\<close> true ends in an error, since the kill
  request fails there.
\<close>

theorem kill_never_rejects_witness:
  "fst (TryLockWithKill (New ''/tmp'' 4242) False
          (host (Some ''777'') (running [777, 4242]) (\<lambda>p. None))) = Inr False \<and>
   (fst (TryLockWithKill (New ''/tmp'' 4242) True
          (host (Some ''777'') (running [777, 4242]) (\<lambda>p. None))) = Inr True \<or>
    (\<exists>e. fst (TryLockWithKill (New ''/tmp'' 4242) True
          (host (Some ''777'') (running [777, 4242]) (\<lambda>p. None))) = Inl e))"
proof -
  let ?l = "New ''/tmp'' 4242"
  let ?w = "host (Some ''777'') (running [777, 4242]) (\<lambda>p. None)"
  have p: "Atoi (TrimSpace ''777'') = Some 777" by (simp add: text_defs)
  have h: "fst (TryLockWithKill ?l False ?w) = Inr False"
    by (simp add: TryLockWithKill_def os_defs example_defs p)
  from kill_never_rejects [of ?l ?w False] h show ?thesis by simp
qed

text \<open>
  The run of \<open>TryLockWithKill\<close> up to the waiting loop when the kill request
  succeeds, and the claim of the lock after the removal.
\<close>

lemma run_kill:
  assumes "files w (lockFilePath l) = Some content"
    and "\<not> stat_fault w" and "\<not> read_fault w"
    and "Atoi (TrimSpace content) = Some P"
    and "P \<noteq> pid l"
    and "procs w P \<noteq> Dead"
    and "kill_resp w P = Some st"
  shows "TryLockWithKill l True w =
           createLock l (snd (os_Remove (lockFilePath l) (wait_for_exit 10 l P
             (w\<lparr>procs := (procs w)(P := st),
                trace := trace w @ [Ev_stat, Ev_read, Ev_check P True, Ev_kill P]\<rparr>))))"
  using assms
  by (simp add: TryLockWithKill_def os_Stat_def os_ReadFile_def log_def isProcessRunning_def
        killProcess_def checkProcessRunningPlatformSpecific_def killProcessPlatformSpecific_def)

lemma claim_after_remove:
  "trace (snd (createLock l (snd (os_Remove (lockFilePath l) w)))) =
     trace w @ [Ev_remove, Ev_write (Itoa (pid l))] \<and>
   procs (snd (createLock l (snd (os_Remove (lockFilePath l) w)))) = procs w \<and>
   fst (createLock l (snd (os_Remove (lockFilePath l) w))) =
     (if write_fault w = None then Inr True else Inl Create_failed) \<and>
   (write_fault w = None \<longrightarrow>
      files (snd (createLock l (snd (os_Remove (lockFilePath l) w)))) (lockFilePath l) =
        Some (Itoa (pid l)))"
  by (cases "write_fault w")
     (simp_all add: createLock_def os_Remove_def os_WriteFile_def log_def)

text \<open>
  Claim C5. If \<open>killExisting\<close> is true, the competitor \<open>P\<close> is reported running and
  the kill request succeeds, leaving \<open>P\<close> in the state \<open>st\<close>, then the trace of the call
  is determined: after the kill request come exactly \<open>unsuccessful_checks 10 st\<close>
  liveness checks that see \<open>P\<close> running, each followed by a sleep, then, unless all 10
  checks were used, the one check that sees \<open>P\<close> dead, and nothing else before the
  removal of the lock file and the write of the caller's PID. So at most 10 checks are
  made after the kill request, the loop stops at the first check that finds \<open>P\<close> dead,
  and the lock is removed and claimed whatever \<open>st\<close> is (dead at once, dying later, or
  never). The processes afterwards are those after the kill request, moved on by one step
  of time for each sleep. The call returns Acquired if the write succeeds (the error of
  the write otherwise), and then the lock file holds the caller's PID.
\<close>

theorem kill_then_claim:
  assumes "files w (lockFilePath l) = Some content"
    and "\<not> stat_fault w" and "\<not> read_fault w"
    and "Atoi (TrimSpace content) = Some P"
    and "P \<noteq> pid l"
    and "procs w P \<noteq> Dead"
    and "kill_resp w P = Some st"
  shows "trace (snd (TryLockWithKill l True w)) =
           trace w @ [Ev_stat, Ev_read, Ev_check P True, Ev_kill P] @
             polls P 10 (unsuccessful_checks 10 st) @
             [Ev_remove, Ev_write (Itoa (pid l))] \<and>
         liveness_checks (polls P 10 (unsuccessful_checks 10 st)) \<le> 10 \<and>
         procs (snd (TryLockWithKill l True w)) =
           (\<lambda>q. (tick ^^ unsuccessful_checks 10 st) (((procs w)(P := st)) q)) \<and>
         fst (TryLockWithKill l True w) =
           (if write_fault w = None then Inr True else Inl Create_failed) \<and>
         (write_fault w = None \<longrightarrow>
            files (snd (TryLockWithKill l True w)) (lockFilePath l) = Some (Itoa (pid l)))"
proof -
  define w4 where
    "w4 = w\<lparr>procs := (procs w)(P := st),
             trace := trace w @ [Ev_stat, Ev_read, Ev_check P True, Ev_kill P]\<rparr>"
  define w5 where "w5 = wait_for_exit 10 l P w4"
  have run: "TryLockWithKill l True w = createLock l (snd (os_Remove (lockFilePath l) w5))"
    unfolding w5_def w4_def using assms by (rule run_kill)
  have t4: "trace w4 = trace w @ [Ev_stat, Ev_read, Ev_check P True, Ev_kill P]"
    and f4: "write_fault w4 = write_fault w"
    and p4: "procs w4 = (procs w)(P := st)"
    by (simp_all add: w4_def)
  have t5: "trace w5 = trace w4 @ polls P 10 (unsuccessful_checks 10 st)"
    unfolding w5_def using wait_for_exit_trace [of 10 l P w4] by (simp add: p4)
  have p5: "procs w5 = (\<lambda>q. (tick ^^ unsuccessful_checks 10 st) (((procs w)(P := st)) q))"
    unfolding w5_def using wait_for_exit_procs [of 10 l P w4] by (simp add: p4 fun_eq_iff)
  have f5: "write_fault w5 = write_fault w"
    unfolding w5_def using wait_for_exit_frame [of 10 l P w4] f4 by simp
  have a: "trace (snd (TryLockWithKill l True w)) =
          trace w @ [Ev_stat, Ev_read, Ev_check P True, Ev_kill P] @
            polls P 10 (unsuccessful_checks 10 st) @
            [Ev_remove, Ev_write (Itoa (pid l))]"
    using claim_after_remove [of l w5] t5 t4 by (simp add: run)
  have b: "liveness_checks (polls P 10 (unsuccessful_checks 10 st)) \<le> 10"
    using unsuccessful_checks_le by (rule liveness_checks_polls)
  have c: "fst (TryLockWithKill l True w) =
             (if write_fault w = None then Inr True else Inl Create_failed)"
    using claim_after_remove [of l w5] f5 by (simp add: run)
  have d: "write_fault w = None \<longrightarrow>
              files (snd (TryLockWithKill l True w)) (lockFilePath l) = Some (Itoa (pid l))"
    using claim_after_remove [of l w5] f5 by (simp add: run)
  have e: "procs (snd (TryLockWithKill l True w)) =
           (\<lambda>q. (tick ^^ unsuccessful_checks 10 st) (((procs w)(P := st)) q))"
    using claim_after_remove [of l w5] p5 by (simp add: run)
  from a b e c d show ?thesis by (intro conjI)
qed

text \<open>
  Two runs on a host where the owner 777 and the caller 4242 run. In the first the owner
  is gone after three sleeps (300 ms): three checks see it running, the fourth sees it
  dead and ends the loop. In the second the owner survives the kill request: all ten
  checks see it running, there is no eleventh, and the lock is claimed all the same while
  the owner keeps running.
\<close>

theorem kill_then_claim_witness:
  "trace (snd (TryLockWithKill (New ''/tmp'' 4242) True
          (host (Some ''777'') (running [777, 4242]) (kill_after 2)))) =
     [Ev_stat, Ev_read, Ev_check 777 True, Ev_kill 777,
      Ev_check 777 True, Ev_sleep, Ev_check 777 True, Ev_sleep, Ev_check 777 True, Ev_sleep,
      Ev_check 777 False,
      Ev_remove, Ev_write ''4242''] \<and>
   procs (snd (TryLockWithKill (New ''/tmp'' 4242) True
          (host (Some ''777'') (running [777, 4242]) (kill_after 2)))) 777 = Dead \<and>
   fst (TryLockWithKill (New ''/tmp'' 4242) True
          (host (Some ''777'') (running [777, 4242]) (kill_after 2))) = Inr True \<and>
   files (snd (TryLockWithKill (New ''/tmp'' 4242) True
          (host (Some ''777'') (running [777, 4242]) (kill_after 2))))
     ''/tmp/matlab-mcp-core-server.lock'' = Some ''4242'' \<and>
   trace (snd (TryLockWithKill (New ''/tmp'' 4242) True
          (host (Some ''777'') (running [777, 4242]) kill_survived))) =
     [Ev_stat, Ev_read, Ev_check 777 True, Ev_kill 777] @
     concat (replicate 10 [Ev_check 777 True, Ev_sleep]) @
     [Ev_remove, Ev_write ''4242''] \<and>
   procs (snd (TryLockWithKill (New ''/tmp'' 4242) True
          (host (Some ''777'') (running [777, 4242]) kill_survived))) 777 = Alive \<and>
   fst (TryLockWithKill (New ''/tmp'' 4242) True
          (host (Some ''777'') (running [777, 4242]) kill_survived)) = Inr True \<and>
   files (snd (TryLockWithKill (New ''/tmp'' 4242) True
          (host (Some ''777'') (running [777, 4242]) kill_survived)))
     ''/tmp/matlab-mcp-core-server.lock'' = Some ''4242''"
proof -
  let ?l = "New ''/tmp'' 4242"
  have p: "Atoi (TrimSpace ''777'') = Some 777" by (simp add: text_defs)
  have n: "777 \<noteq> pid ?l" by (simp add: example_defs)
  have i: "Itoa 4242 = ''4242''" by (simp add: text_defs)
  let ?w = "host (Some ''777'') (running [777, 4242]) (kill_after 2)"
  have h1: "files ?w (lockFilePath ?l) = Some ''777''" by (simp add: example_defs)
  have h2: "\<not> stat_fault ?w" by (simp add: example_defs)
  have h3: "\<not> read_fault ?w" by (simp add: example_defs)
  have h6: "procs ?w 777 \<noteq> Dead" by (simp add: example_defs)
  have h7: "kill_resp ?w 777 = Some (Dying 2)" by (simp add: example_defs)
  have h8: "write_fault ?w = None" by (simp add: example_defs)
  have first: "trace (snd (TryLockWithKill ?l True ?w)) =
     [Ev_stat, Ev_read, Ev_check 777 True, Ev_kill 777,
      Ev_check 777 True, Ev_sleep, Ev_check 777 True, Ev_sleep, Ev_check 777 True, Ev_sleep,
      Ev_check 777 False,
      Ev_remove, Ev_write ''4242''] \<and>
   procs (snd (TryLockWithKill ?l True ?w)) 777 = Dead \<and>
   fst (TryLockWithKill ?l True ?w) = Inr True \<and>
   files (snd (TryLockWithKill ?l True ?w)) ''/tmp/matlab-mcp-core-server.lock'' = Some ''4242''"
    using kill_then_claim [OF h1 h2 h3 p n h6 h7] h8 i
    by (simp add: New_tmp host_def polls_def eval_nat_numeral)
  let ?v = "host (Some ''777'') (running [777, 4242]) kill_survived"
  have g1: "files ?v (lockFilePath ?l) = Some ''777''" by (simp add: example_defs)
  have g2: "\<not> stat_fault ?v" by (simp add: example_defs)
  have g3: "\<not> read_fault ?v" by (simp add: example_defs)
  have g6: "procs ?v 777 \<noteq> Dead" by (simp add: example_defs)
  have g7: "kill_resp ?v 777 = Some Alive" by (simp add: example_defs)
  have g8: "write_fault ?v = None" by (simp add: example_defs)
  have second: "trace (snd (TryLockWithKill ?l True ?v)) =
     [Ev_stat, Ev_read, Ev_check 777 True, Ev_kill 777] @
     concat (replicate 10 [Ev_check 777 True, Ev_sleep]) @
     [Ev_remove, Ev_write ''4242''] \<and>
   procs (snd (TryLockWithKill ?l True ?v)) 777 = Alive \<and>
   fst (TryLockWithKill ?l True ?v) = Inr True \<and>
   files (snd (TryLockWithKill ?l True ?v)) ''/tmp/matlab-mcp-core-server.lock'' = Some ''4242''"
    using kill_then_claim [OF g1 g2 g3 p n g6 g7] g8 i
    by (simp add: New_tmp host_def polls_def tick_Alive)
  from first second show ?thesis by (intro conjI) simp_all
qed

text \<open>
  After a call that returned Acquired the lock file holds text that parses to the caller's
  PID, and either the file can be written or it can be examined and read. In such a world
  the owner acquires again.
\<close>

lemma createLock_acquired:
  assumes "go_int (pid l)" and "fst (createLock l w) = Inr True"
  shows "files (snd (createLock l w)) (lockFilePath l) = Some (Itoa (pid l)) \<and>
         write_fault (snd (createLock l w)) = None"
  using assms by (cases "write_fault w") (simp_all add: createLock_def os_WriteFile_def log_def)

lemma acquired_state:
  assumes "go_int (pid l)" and "fst (TryLockWithKill l k w) = Inr True"
  shows "(\<exists>c. files (snd (TryLockWithKill l k w)) (lockFilePath l) = Some c \<and>
              Atoi (TrimSpace c) = Some (pid l)) \<and>
         (write_fault (snd (TryLockWithKill l k w)) = None \<or>
          \<not> stat_fault (snd (TryLockWithKill l k w)) \<and> \<not> read_fault (snd (TryLockWithKill l k w)))"
proof -
  let ?w' = "snd (TryLockWithKill l k w)"
  have own: "Atoi (TrimSpace (Itoa (pid l))) = Some (pid l)"
    using assms(1) by (simp add: TrimSpace_Itoa Atoi_Itoa)
  note run_defs = TryLockWithKill_def os_Stat_def os_ReadFile_def log_def isProcessRunning_def
          killProcess_def checkProcessRunningPlatformSpecific_def killProcessPlatformSpecific_def
  have "(\<exists>w0. TryLockWithKill l k w = createLock l w0) \<or>
        (\<exists>c. files w (lockFilePath l) = Some c \<and> Atoi (TrimSpace c) = Some (pid l) \<and>
              \<not> stat_fault w \<and> \<not> read_fault w \<and>
              ?w' = w\<lparr>trace := trace w @ [Ev_stat, Ev_read]\<rparr>) \<or>
        fst (TryLockWithKill l k w) \<noteq> Inr True"
  proof (cases "files w (lockFilePath l)")
    case None
    then show ?thesis by (auto simp: run_defs)
  next
    case (Some c)
    show ?thesis
    proof (cases "stat_fault w \<or> read_fault w")
      case True
      with Some show ?thesis by (cases "stat_fault w") (auto simp: run_defs)
    next
      case ok: False
      show ?thesis
      proof (cases "Atoi (TrimSpace c)")
        case None
        with Some ok show ?thesis by (auto simp: run_defs)
      next
        case parsed: (Some P)
        show ?thesis
        proof (cases "P = pid l")
          case True
          with Some ok parsed show ?thesis by (auto simp: run_defs)
        next
          case competitor: False
          show ?thesis
          proof (cases "procs w P = Dead")
            case True
            with Some ok parsed competitor show ?thesis by (auto simp: run_defs)
          next
            case alive: False
            show ?thesis
            proof (cases k)
              case False
              with Some ok parsed competitor alive show ?thesis by (auto simp: run_defs)
            next
              case True
              with Some ok parsed competitor alive show ?thesis
                by (cases "kill_resp w P") (auto simp: run_defs)
            qed
          qed
        qed
      qed
    qed
  qed
  then consider (created) w0 where "TryLockWithKill l k w = createLock l w0"
    | (owned) c where "files w (lockFilePath l) = Some c" "Atoi (TrimSpace c) = Some (pid l)"
        "\<not> stat_fault w" "\<not> read_fault w"
        "?w' = w\<lparr>trace := trace w @ [Ev_stat, Ev_read]\<rparr>"
    | (other) "fst (TryLockWithKill l k w) \<noteq> Inr True"
    by blast
  then show ?thesis
  proof cases
    case created
    with assms createLock_acquired [of l w0] own show ?thesis by simp
  next
    case owned
    then show ?thesis by simp
  next
    case other
    with assms(2) show ?thesis by simp
  qed
qed

lemma owner_reacquires:
  assumes "files w (lockFilePath l) = Some c" and "Atoi (TrimSpace c) = Some (pid l)"
    and "write_fault w = None \<or> \<not> stat_fault w \<and> \<not> read_fault w"
  shows "fst (TryLockWithKill l k w) = Inr True"
  using assms
  by (cases "stat_fault w"; cases "read_fault w")
     (auto simp: TryLockWithKill_def os_defs)

text \<open>
  Claim C7. If a call of \<open>TryLockWithKill\<close> by the process with PID \<open>pid l\<close> returns
  Acquired, then the lock file holds text that parses to that PID, and a call that
  follows immediately, by the same process and with either value of \<open>killExisting\<close>,
  returns Acquired as well. The PID is a Go \<^verbatim>\<open>int\<close>; the second call runs in the world
  that the first one left, with the same faults.
\<close>

theorem acquire_idempotent:
  assumes "go_int (pid l)" and "fst (TryLockWithKill l k1 w) = Inr True"
  shows "(\<exists>c. files (snd (TryLockWithKill l k1 w)) (lockFilePath l) = Some c \<and>
              Atoi (TrimSpace c) = Some (pid l)) \<and>
         fst (TryLockWithKill l k2 (snd (TryLockWithKill l k1 w))) = Inr True"
proof -
  from acquired_state [OF assms] obtain c where
    c: "files (snd (TryLockWithKill l k1 w)) (lockFilePath l) = Some c"
       "Atoi (TrimSpace c) = Some (pid l)"
    and f: "write_fault (snd (TryLockWithKill l k1 w)) = None \<or>
          \<not> stat_fault (snd (TryLockWithKill l k1 w)) \<and> \<not> read_fault (snd (TryLockWithKill l k1 w))"
    by auto
  from c f have "fst (TryLockWithKill l k2 (snd (TryLockWithKill l k1 w))) = Inr True"
    by (rule owner_reacquires)
  with c show ?thesis by simp
qed

lemma fresh_host_acquires:
  "fst (TryLockWithKill (New ''/tmp'' 4242) False (host None (running [4242]) (\<lambda>p. None))) =
     Inr True"
  by (simp add: TryLockWithKill_def os_defs example_defs)

theorem acquire_idempotent_witness:
  "go_int 4242 \<and>
   fst (TryLockWithKill (New ''/tmp'' 4242) False (host None (running [4242]) (\<lambda>p. None))) =
     Inr True \<and>
   fst (TryLockWithKill (New ''/tmp'' 4242) True
          (snd (TryLockWithKill (New ''/tmp'' 4242) False
                  (host None (running [4242]) (\<lambda>p. None))))) = Inr True"
proof -
  let ?l = "New ''/tmp'' 4242"
  let ?w = "host None (running [4242]) (\<lambda>p. None)"
  have h1: "go_int (pid ?l)" by (simp add: New_tmp go_int_def)
  have h2: "fst (TryLockWithKill ?l False ?w) = Inr True" by (rule fresh_host_acquires)
  from acquire_idempotent [OF h1 h2, of True] h1 h2 show ?thesis
    by (simp add: New_tmp)
qed




section \<open>Properties of the client factory\<close>

lemmas crypto_defs = example_crypto_def short_cert_def future_cert_def clockSkewTolerance_def

lemma check_skew_None_iff:
  "check_skew e t certs = None \<longleftrightarrow>
     list_all (\<lambda>c. NotBefore c \<le> t \<and> e \<le> NotAfter c) certs"
  by (induction certs) auto

lemma check_skew_Some:
  "check_skew e t certs = Some err \<Longrightarrow>
     (\<exists>c\<in>set certs. err = Not_yet_valid (NotBefore c) t \<and> t < NotBefore c) \<or>
     (\<exists>c\<in>set certs. err = Expired (NotAfter c) e \<and> NotAfter c < e)"
  by (induction certs) (auto split: if_splits)

text \<open>
  Claim C3. For a chain that parses, with verification time \<open>now\<close>: if some
  certificate of the chain has \<open>NotBefore\<close> later than \<open>now\<close> + 24 h, or \<open>NotAfter\<close>
  earlier than \<open>now\<close> - 24 h, the callback returns an error (of a certificate that is
  not yet valid, or has expired, beyond the tolerance) and makes no call of \<open>Verify\<close>.
\<close>

theorem skew_rejects_before_verification:
  assumes "parse_chain lib rawCerts [] = Inr certs"
    and "cert \<in> set certs"
    and "now + clockSkewTolerance < NotBefore cert \<or> NotAfter cert < now - clockSkewTolerance"
  shows "\<exists>e. VerifyPeerCertificate lib now caCertPool rawCerts = (Some e, []) \<and>
             ((\<exists>c\<in>set certs. e = Not_yet_valid (NotBefore c) (now + clockSkewTolerance) \<and>
                               now + clockSkewTolerance < NotBefore c) \<or>
              (\<exists>c\<in>set certs. e = Expired (NotAfter c) (now - clockSkewTolerance) \<and>
                               NotAfter c < now - clockSkewTolerance))"
proof -
  from assms(2) obtain cert0 others where certs: "certs = cert0 # others"
    by (cases certs) auto
  have "check_skew (now - clockSkewTolerance) (now + clockSkewTolerance) certs \<noteq> None"
    using assms(2,3) by (simp add: check_skew_None_iff list_all_iff) force
  then obtain e where e: "check_skew (now - clockSkewTolerance) (now + clockSkewTolerance) certs = Some e"
    by auto
  then have "VerifyPeerCertificate lib now caCertPool rawCerts = (Some e, [])"
    using assms(1) certs by (simp add: VerifyPeerCertificate_def)
  with check_skew_Some [OF e] show ?thesis by blast
qed

theorem skew_rejects_before_verification_witness:
  "VerifyPeerCertificate example_crypto 0 [short_cert] [''short'', ''future''] =
     (Some (Not_yet_valid 1000000000000000 86400000000000), [])"
proof -
  have h1: "parse_chain example_crypto [''short'', ''future''] [] = Inr [short_cert, future_cert]"
    by (simp add: example_crypto_def)
  have h2: "future_cert \<in> set [short_cert, future_cert]" by simp
  have h3: "0 + clockSkewTolerance < NotBefore future_cert \<or>
            NotAfter future_cert < 0 - clockSkewTolerance"
    by (simp add: crypto_defs)
  from skew_rejects_before_verification [OF h1 h2 h3, of "[short_cert]"] show ?thesis
    by (auto simp: crypto_defs)
qed

text \<open>
  Claim C2. When the chain parses and every certificate passes the coarse check, the
  callback verifies the first certificate against the pinned pool at the reference time
  \<open>now\<close>, then at \<open>now\<close> + 24 h, then at \<open>now\<close> - 24 h, in this order, and stops
  with success at the first attempt that verifies. If all three attempts fail it returns
  the error that wraps the error of the third attempt; the errors of the first two are
  dropped.
\<close>

theorem three_attempts_last_error:
  assumes "parse_chain lib rawCerts [] = Inr (cert0 # others)"
    and "list_all (\<lambda>c. NotBefore c \<le> now + clockSkewTolerance \<and>
                        now - clockSkewTolerance \<le> NotAfter c) (cert0 # others)"
  shows "VerifyPeerCertificate lib now caCertPool rawCerts =
     (case verify_chain lib cert0 caCertPool now of
        None \<Rightarrow> (None, [(cert0, caCertPool, now)])
      | Some e1 \<Rightarrow>
          (case verify_chain lib cert0 caCertPool (now + clockSkewTolerance) of
             None \<Rightarrow> (None, [(cert0, caCertPool, now),
                              (cert0, caCertPool, now + clockSkewTolerance)])
           | Some e2 \<Rightarrow>
               (case verify_chain lib cert0 caCertPool (now - clockSkewTolerance) of
                  None \<Rightarrow> (None, [(cert0, caCertPool, now),
                                   (cert0, caCertPool, now + clockSkewTolerance),
                                   (cert0, caCertPool, now - clockSkewTolerance)])
                | Some e3 \<Rightarrow> (Some (Verification_failed e3),
                                 [(cert0, caCertPool, now),
                                  (cert0, caCertPool, now + clockSkewTolerance),
                                  (cert0, caCertPool, now - clockSkewTolerance)]))))"
proof -
  have "check_skew (now + (- clockSkewTolerance)) (now + clockSkewTolerance) (cert0 # others) = None"
    using assms(2) by (simp only: check_skew_None_iff) simp
  with assms(1) show ?thesis
    by (simp add: VerifyPeerCertificate_def Verify_def split: option.splits)
qed

text \<open>
  A certificate whose validity window of less than 3 h lies between \<open>now\<close> - 24 h and
  \<open>now\<close>: the attempts at \<open>now\<close> and at \<open>now\<close> + 24 h find it expired, the attempt
  at \<open>now\<close> - 24 h finds it not yet valid, and this last error is the one returned.
\<close>

theorem three_attempts_last_error_witness:
  "VerifyPeerCertificate example_crypto 50000000000000 [short_cert] [''short''] =
     (Some (Verification_failed ''not yet valid''),
      [(short_cert, [short_cert], 50000000000000),
       (short_cert, [short_cert], 136400000000000),
       (short_cert, [short_cert], - 36400000000000)])"
proof -
  have h1: "parse_chain example_crypto [''short''] [] = Inr (short_cert # [])"
    by (simp add: example_crypto_def)
  have h2: "list_all (\<lambda>c. NotBefore c \<le> 50000000000000 + clockSkewTolerance \<and>
                            50000000000000 - clockSkewTolerance \<le> NotAfter c) (short_cert # [])"
    by (simp add: crypto_defs)
  from three_attempts_last_error [OF h1 h2, of "[short_cert]"] show ?thesis
    by (simp add: crypto_defs)
qed

text \<open>
  Claim C8. If no certificate can be parsed from the PEM input, the factory returns the
  nil client together with an error. For every input exactly one of the two results is
  nil: a client is returned only with a nil error, and an error only with a nil client.
\<close>

theorem invalid_pem_builds_no_client:
  "(pem_certificates lib certificatePEM = [] \<longrightarrow>
      NewClientForSelfSignedTLSServer lib certificatePEM = (None, Some Append_failed)) \<and>
   (fst (NewClientForSelfSignedTLSServer lib certificatePEM) = None) \<noteq>
   (snd (NewClientForSelfSignedTLSServer lib certificatePEM) = None)"
  by (auto simp: NewClientForSelfSignedTLSServer_def AppendCertsFromPEM_def split: sum.splits)

theorem invalid_pem_builds_no_client_witness:
  "NewClientForSelfSignedTLSServer example_crypto ''not a certificate'' =
     (None, Some Append_failed)"
proof -
  have h: "pem_certificates example_crypto ''not a certificate'' = []"
    by (simp add: example_crypto_def)
  from invalid_pem_builds_no_client [of example_crypto "''not a certificate''"] h
  show ?thesis by simp
qed

end
